theory Spec2Isabelle
  imports Main "HOL-Library.Sublist"
begin

section \<open>The offline cache of the Block Canvas service worker\<close>

text \<open>
  The development embeds \<^verbatim>\<open>src/service-worker.js\<close>: its constants, its two helpers
  (\<^verbatim>\<open>fetchAndCache\<close>, \<^verbatim>\<open>updateCacheInBackground\<close>) and its four event handlers
  (install, activate, fetch, message). The handlers are anonymous in the source and are
  named \<open>on_install\<close>, \<open>on_activate\<close>, \<open>on_fetch\<close> and \<open>on_message\<close> here.

  The worker talks to three things it does not define: the network (\<^verbatim>\<open>fetch\<close>), the
  named stores of the hosting environment (\<^verbatim>\<open>caches\<close>, \<^verbatim>\<open>Cache\<close>) and the URL parser.
  The network is a parameter of every handler, the URL parser is a parameter collected in
  the record \<open>host\<close>, and the stores are modelled as ordered association lists with the
  operations of the Cache interface the source calls.
\<close>

subsection \<open>Requests and responses\<close>

text \<open>
  A request carries the three properties the source reads: \<^verbatim>\<open>request.method\<close>,
  \<^verbatim>\<open>request.url\<close> and \<^verbatim>\<open>request.mode\<close>. A response carries \<^verbatim>\<open>response.status\<close>,
  \<^verbatim>\<open>response.type\<close> and its body.
\<close>

record request =
  req_method :: string
  url :: string
  mode :: string

datatype response_type = Basic | Cors | Default | Error | Opaque | OpaqueRedirect

record response =
  status :: nat
  rtype :: response_type
  body :: string

text \<open>
  \<^verbatim>\<open>fetch(request)\<close> settles with a response or rejects with a network error:
  \<open>None\<close> is the rejection.
\<close>

type_synonym network = "request \<Rightarrow> response option"

text \<open>
  What the worker asks of the URL parser: its own origin (\<^verbatim>\<open>self.location.origin\<close>), the
  origin of an absolute URL (\<^verbatim>\<open>new URL(u).origin\<close>), and the absolute URL of a path given
  as a string to \<^verbatim>\<open>cache.add\<close>, \<^verbatim>\<open>cache.addAll\<close> or \<^verbatim>\<open>caches.match\<close>.
\<close>

record host =
  location_origin :: string
  url_origin :: "string \<Rightarrow> string"
  resolve_url :: "string \<Rightarrow> string"

subsection \<open>Constants and patterns\<close>

definition CACHE_NAME :: string where
  "CACHE_NAME = ''block-canvas-telegram-v1''"

definition CACHE_VERSION :: nat where
  "CACHE_VERSION = 1"

definition PRECACHE_URLS :: "string list" where
  "PRECACHE_URLS =
     [''/'', ''/index.html'', ''/style.css'', ''/application.js'',
      ''/src/polyfills.bundle.js'', ''/src/system.bundle.js'',
      ''/src/import-map.json'', ''/index.js'']"

text \<open>
  The regular expressions of the source are of two shapes only: a literal that may occur
  anywhere (\<^verbatim>\<open>/cloudflare/\<close>) and a literal anchored at the end of the input
  (\<^verbatim>\<open>/\.js$/\<close>, without the multiline flag). \<open>test\<close> is \<^verbatim>\<open>pattern.test(s)\<close>.
\<close>

datatype pattern = Anywhere string | AtEnd string

fun test :: "pattern \<Rightarrow> string \<Rightarrow> bool" where
  "test (Anywhere lit) s = sublist lit s"
| "test (AtEnd lit) s = suffix lit s"

definition CACHEABLE_PATTERNS :: "pattern list" where
  "CACHEABLE_PATTERNS =
     [AtEnd ''.js'', AtEnd ''.css'', AtEnd ''.png'', AtEnd ''.jpg'', AtEnd ''.webp'',
      AtEnd ''.mp3'', AtEnd ''.ogg'', AtEnd ''.json'', AtEnd ''.wasm'']"

definition NEVER_CACHE :: "pattern list" where
  "NEVER_CACHE =
     [Anywhere ''telegram.org'', Anywhere ''tganalytics.xyz'', Anywhere ''api.'',
      AtEnd ''.php'', Anywhere ''cloudflare'', Anywhere ''ws:'', Anywhere ''wss:'']"

text \<open>\<^verbatim>\<open>patterns.some(pattern => pattern.test(s))\<close>\<close>

definition some_test :: "pattern list \<Rightarrow> string \<Rightarrow> bool" where
  "some_test patterns s = list_ex (\<lambda>p. test p s) patterns"

subsection \<open>The named stores\<close>

text \<open>
  A cache is an ordered list of entries keyed by request URL (every request that reaches
  a store is a GET); the storage is an ordered list of named caches, in creation order.
  Every call of the worker into the storage is recorded in \<open>oplog\<close>, so that claims about
  which store operations a handler performs can be stated.

  The storage itself never fails here: opening, reading, writing and deleting always
  succeed. The only rejections are those of the network and of the bulk insert.
\<close>

type_synonym cache = "(string \<times> response) list"
type_synonym cache_storage = "(string \<times> cache) list"

datatype store_op =
    Open string
  | Put string string response
  | Match string
  | Keys
  | Delete string

record worker =
  stores :: cache_storage
  oplog :: "store_op list"
  skipped_waiting :: bool
  clients_claimed :: bool

definition cache_match :: "string \<Rightarrow> cache \<Rightarrow> response option" where
  "cache_match key c = map_of c key"

text \<open>\<^verbatim>\<open>cache.put\<close> removes the entry stored under the key, if any, and adds the new one.\<close>

definition cache_put_entry :: "string \<Rightarrow> response \<Rightarrow> cache \<Rightarrow> cache" where
  "cache_put_entry key r c = filter (\<lambda>e. fst e \<noteq> key) c @ [(key, r)]"

text \<open>
  \<^verbatim>\<open>caches.match(request)\<close>, called on the storage and not on one cache, goes through the
  caches in creation order and answers with the first entry found.
\<close>

fun storage_match :: "string \<Rightarrow> cache_storage \<Rightarrow> response option" where
  "storage_match key [] = None"
| "storage_match key ((name, c) # rest) =
     (case cache_match key c of
        Some r \<Rightarrow> Some r
      | None \<Rightarrow> storage_match key rest)"

definition storage_open :: "string \<Rightarrow> cache_storage \<Rightarrow> cache_storage" where
  "storage_open name cs = (if name \<in> set (map fst cs) then cs else cs @ [(name, [])])"

definition storage_put :: "string \<Rightarrow> string \<Rightarrow> response \<Rightarrow> cache_storage \<Rightarrow> cache_storage" where
  "storage_put name key r cs =
     map (\<lambda>e. if fst e = name then (fst e, cache_put_entry key r (snd e)) else e) cs"

definition storage_delete :: "string \<Rightarrow> cache_storage \<Rightarrow> cache_storage" where
  "storage_delete name cs = filter (\<lambda>e. fst e \<noteq> name) cs"

definition caches_open :: "string \<Rightarrow> worker \<Rightarrow> worker" where
  "caches_open name w =
     w\<lparr>stores := storage_open name (stores w), oplog := oplog w @ [Open name]\<rparr>"

definition cache_put :: "string \<Rightarrow> string \<Rightarrow> response \<Rightarrow> worker \<Rightarrow> worker" where
  "cache_put name key r w =
     w\<lparr>stores := storage_put name key r (stores w), oplog := oplog w @ [Put name key r]\<rparr>"

definition caches_match :: "string \<Rightarrow> worker \<Rightarrow> response option \<times> worker" where
  "caches_match key w = (storage_match key (stores w), w\<lparr>oplog := oplog w @ [Match key]\<rparr>)"

definition caches_keys :: "worker \<Rightarrow> string list \<times> worker" where
  "caches_keys w = (map fst (stores w), w\<lparr>oplog := oplog w @ [Keys]\<rparr>)"

definition caches_delete :: "string \<Rightarrow> worker \<Rightarrow> worker" where
  "caches_delete name w =
     w\<lparr>stores := storage_delete name (stores w), oplog := oplog w @ [Delete name]\<rparr>"

definition skipWaiting :: "worker \<Rightarrow> worker" where
  "skipWaiting w = w\<lparr>skipped_waiting := True\<rparr>"

definition clients_claim :: "worker \<Rightarrow> worker" where
  "clients_claim w = w\<lparr>clients_claimed := True\<rparr>"

subsection \<open>Bulk insert\<close>

text \<open>
  \<^verbatim>\<open>cache.addAll(urls)\<close> fetches every URL and stores the responses only when every fetch
  succeeded with a response the interface admits (an ok status, 200 to 299, other than
  206); otherwise it rejects and stores nothing. \<^verbatim>\<open>cache.add(url)\<close> is
  \<^verbatim>\<open>cache.addAll([url])\<close>. A promise settles as \<open>Resolved\<close> or \<open>Rejected\<close>.
\<close>

datatype settled = Resolved | Rejected

definition new_request :: "host \<Rightarrow> string \<Rightarrow> request" where
  "new_request h u = \<lparr>req_method = ''GET'', url = resolve_url h u, mode = ''cors''\<rparr>"

definition addable :: "response \<Rightarrow> bool" where
  "addable r = (200 \<le> status r \<and> status r \<le> 299 \<and> status r \<noteq> 206)"

fun fetch_all :: "host \<Rightarrow> network \<Rightarrow> string list \<Rightarrow> (string \<times> response) list option" where
  "fetch_all h net [] = Some []"
| "fetch_all h net (u # us) =
     (case net (new_request h u) of
        None \<Rightarrow> None
      | Some r \<Rightarrow>
          if addable r then
            (case fetch_all h net us of
               None \<Rightarrow> None
             | Some rs \<Rightarrow> Some ((resolve_url h u, r) # rs))
          else None)"

definition cache_addAll ::
  "host \<Rightarrow> network \<Rightarrow> string \<Rightarrow> string list \<Rightarrow> worker \<Rightarrow> settled \<times> worker" where
  "cache_addAll h net name urls w =
     (case fetch_all h net urls of
        None \<Rightarrow> (Rejected, w)
      | Some entries \<Rightarrow> (Resolved, fold (\<lambda>e. cache_put name (fst e) (snd e)) entries w))"

definition cache_add ::
  "host \<Rightarrow> network \<Rightarrow> string \<Rightarrow> string \<Rightarrow> worker \<Rightarrow> settled \<times> worker" where
  "cache_add h net name u w = cache_addAll h net name [u] w"

text \<open>
  \<^verbatim>\<open>Promise.all\<close> over store operations: every operation runs, and the result is
  rejected when one of them is. The operations of the source run concurrently; here they
  run in list order.
\<close>

fun promise_all :: "(worker \<Rightarrow> settled \<times> worker) list \<Rightarrow> worker \<Rightarrow> settled \<times> worker" where
  "promise_all [] w = (Resolved, w)"
| "promise_all (p # ps) w =
     (case p w of (s, w') \<Rightarrow>
        (case promise_all ps w' of (s', w'') \<Rightarrow>
           (if s = Rejected then Rejected else s', w'')))"

subsection \<open>Install\<close>

text \<open>\<^verbatim>\<open>cache.add(url).catch(() => console.warn('[SW] Skip:', url))\<close>\<close>

definition add_or_skip ::
  "host \<Rightarrow> network \<Rightarrow> string \<Rightarrow> string \<Rightarrow> worker \<Rightarrow> settled \<times> worker" where
  "add_or_skip h net name u w =
     (case cache_add h net name u w of
        (Resolved, w') \<Rightarrow> (Resolved, w')
      | (Rejected, w') \<Rightarrow> (Resolved, w'))"

text \<open>
  The body of the install handler, with the manifest as a parameter. The bulk insert and
  the second, one-by-one round fetch separately, so each round has its own network
  outcomes: \<open>net_bulk\<close> and \<open>net_each\<close>.
\<close>

definition precache ::
  "host \<Rightarrow> network \<Rightarrow> network \<Rightarrow> string list \<Rightarrow> worker \<Rightarrow> settled \<times> worker" where
  "precache h net_bulk net_each urls w =
     (let w0 = caches_open CACHE_NAME w in
      case (case cache_addAll h net_bulk CACHE_NAME urls w0 of
              (Resolved, w1) \<Rightarrow> (Resolved, w1)
            | (Rejected, w1) \<Rightarrow>
                promise_all (map (add_or_skip h net_each CACHE_NAME) urls) w1) of
        (Resolved, w2) \<Rightarrow> (Resolved, skipWaiting w2)
      | (Rejected, w2) \<Rightarrow> (Rejected, w2))"

definition on_install :: "host \<Rightarrow> network \<Rightarrow> network \<Rightarrow> worker \<Rightarrow> settled \<times> worker" where
  "on_install h net_bulk net_each w = precache h net_bulk net_each PRECACHE_URLS w"

subsection \<open>Activate\<close>

text \<open>The deletions of the source run concurrently; here they run in the order of the names.\<close>

definition on_activate :: "worker \<Rightarrow> worker" where
  "on_activate w =
     (case caches_keys w of (cacheNames, w1) \<Rightarrow>
        clients_claim
          (fold caches_delete (filter (\<lambda>name. name \<noteq> CACHE_NAME) cacheNames) w1))"

subsection \<open>Fetch\<close>

text \<open>
  A store operation whose promise the handler neither returns nor hands to
  \<^verbatim>\<open>waitUntil\<close> or \<^verbatim>\<open>respondWith\<close> is detached: the handler's own result is settled
  without it, and it takes effect later. A handler returns its detached operations next to
  its result; \<open>settle\<close> runs them.
\<close>

datatype detached =
    OpenThenPut string string response
  | DeleteStore string

fun run_detached :: "detached \<Rightarrow> worker \<Rightarrow> worker" where
  "run_detached (OpenThenPut name key r) w = cache_put name key r (caches_open name w)"
| "run_detached (DeleteStore name) w = caches_delete name w"

definition settle :: "detached list \<Rightarrow> worker \<Rightarrow> worker" where
  "settle ds w = fold run_detached ds w"

text \<open>
  \<open>fetchAndCache\<close> settles with the network's response, or rejects (\<open>None\<close>) when the
  fetch does. A settled fetch always carries a response, so the test \<^verbatim>\<open>!response\<close> of
  the source is never true. The write of the clone is detached: the source calls
  \<^verbatim>\<open>caches.open(CACHE_NAME).then(...)\<close>, drops the promise and returns the response.
\<close>

definition fetchAndCache :: "network \<Rightarrow> request \<Rightarrow> (response \<times> detached list) option" where
  "fetchAndCache net req =
     (case net req of
        None \<Rightarrow> None
      | Some response \<Rightarrow>
          if status response \<noteq> 200 \<or> rtype response \<noteq> Basic then Some (response, [])
          else
            (let isCacheable = some_test CACHEABLE_PATTERNS (url req) in
             if isCacheable then Some (response, [OpenThenPut CACHE_NAME (url req) response])
             else Some (response, [])))"

text \<open>\<open>updateCacheInBackground\<close> is detached as a whole and swallows a rejected fetch.\<close>

definition updateCacheInBackground :: "network \<Rightarrow> request \<Rightarrow> detached list" where
  "updateCacheInBackground net req =
     (case net req of
        None \<Rightarrow> []
      | Some response \<Rightarrow>
          if status response = 200 then [OpenThenPut CACHE_NAME (url req) response]
          else [])"

text \<open>
  The fetch handler either returns without calling \<^verbatim>\<open>respondWith\<close> (\<open>PassThrough\<close>: the
  browser handles the request as if there were no worker) or hands \<^verbatim>\<open>respondWith\<close> a
  promise, which settles with a response or with \<^verbatim>\<open>undefined\<close> (\<open>RespondWith None\<close>:
  the page gets a network error).
\<close>

datatype outcome = PassThrough | RespondWith "response option"

definition offline_response :: response where
  "offline_response = \<lparr>status = 503, rtype = Default, body = ''Offline''\<rparr>"

definition on_fetch ::
  "host \<Rightarrow> network \<Rightarrow> request \<Rightarrow> worker \<Rightarrow> outcome \<times> worker \<times> detached list" where
  "on_fetch h net req w =
     (if req_method req \<noteq> ''GET'' then (PassThrough, w, [])
      else if some_test NEVER_CACHE (url req) then (PassThrough, w, [])
      else if url_origin h (url req) \<noteq> location_origin h then (PassThrough, w, [])
      else
        (case caches_match (url req) w of (cachedResponse, w1) \<Rightarrow>
           (case cachedResponse of
              Some cached \<Rightarrow> (RespondWith (Some cached), w1, updateCacheInBackground net req)
            | None \<Rightarrow>
                (case fetchAndCache net req of
                   Some (response, ds) \<Rightarrow> (RespondWith (Some response), w1, ds)
                 | None \<Rightarrow>
                     if mode req = ''navigate'' then
                       (case caches_match (resolve_url h ''/index.html'') w1 of
                          (fallback, w2) \<Rightarrow> (RespondWith fallback, w2, []))
                     else (RespondWith (Some offline_response), w1, [])))))"

subsection \<open>Message\<close>

text \<open>
  \<^verbatim>\<open>event.data\<close> is compared with two strings; the promise of the deletion is dropped,
  so the deletion is detached.
\<close>

definition on_message :: "string \<Rightarrow> worker \<Rightarrow> worker \<times> detached list" where
  "on_message data w =
     (let w1 = (if data = ''skipWaiting'' then skipWaiting w else w) in
      if data = ''clearCache'' then (w1, [DeleteStore CACHE_NAME]) else (w1, []))"

subsection \<open>Observations\<close>

text \<open>The entry a named store holds under a key, and the keys of a named store.\<close>

definition store_lookup :: "string \<Rightarrow> string \<Rightarrow> worker \<Rightarrow> response option" where
  "store_lookup name key w =
     (case map_of (stores w) name of None \<Rightarrow> None | Some c \<Rightarrow> cache_match key c)"

definition store_keys :: "string \<Rightarrow> worker \<Rightarrow> string list" where
  "store_keys name w = (case map_of (stores w) name of None \<Rightarrow> [] | Some c \<Rightarrow> map fst c)"

definition cache_names :: "worker \<Rightarrow> string list" where
  "cache_names w = map fst (stores w)"

text \<open>The store operations a step from \<open>w\<close> to \<open>w'\<close> has added to the log.\<close>

definition emitted :: "worker \<Rightarrow> worker \<Rightarrow> store_op list" where
  "emitted w w' = drop (length (oplog w)) (oplog w')"

subsection \<open>Auxiliary notions for the proofs\<close>

text \<open>
  What \<^verbatim>\<open>cache.add\<close> stores for the request it builds from a path: the response, when the
  fetch succeeded and the response is admitted.
\<close>

definition admit :: "network \<Rightarrow> string \<Rightarrow> response option" where
  "admit net key =
     (case net \<lparr>req_method = ''GET'', url = key, mode = ''cors''\<rparr> of
        None \<Rightarrow> None
      | Some r \<Rightarrow> if addable r then Some r else None)"

fun admitted_entries :: "host \<Rightarrow> network \<Rightarrow> string list \<Rightarrow> (string \<times> response) list" where
  "admitted_entries h net [] = []"
| "admitted_entries h net (u # us) =
     (case admit net (resolve_url h u) of
        None \<Rightarrow> admitted_entries h net us
      | Some r \<Rightarrow> (resolve_url h u, r) # admitted_entries h net us)"

definition put_all :: "string \<Rightarrow> (string \<times> response) list \<Rightarrow> worker \<Rightarrow> worker" where
  "put_all name entries w = fold (\<lambda>e. cache_put name (fst e) (snd e)) entries w"

definition put_op :: "string \<Rightarrow> string \<times> response \<Rightarrow> store_op" where
  "put_op name e = Put name (fst e) (snd e)"

text \<open>The entries an install writes: those of the bulk insert, or else of the second round.\<close>

definition precached ::
  "host \<Rightarrow> network \<Rightarrow> network \<Rightarrow> string list \<Rightarrow> (string \<times> response) list" where
  "precached h net_bulk net_each urls =
     (case fetch_all h net_bulk urls of
        Some entries \<Rightarrow> entries
      | None \<Rightarrow> admitted_entries h net_each urls)"

fun detached_ops :: "detached \<Rightarrow> store_op list" where
  "detached_ops (OpenThenPut name key r) = [Open name, Put name key r]"
| "detached_ops (DeleteStore name) = [Delete name]"

text \<open>
  The store operations a fetch handler may perform for the request key; \<open>miss\<close> tells
  whether the lookup found nothing.
\<close>

definition fetch_op :: "string \<Rightarrow> bool \<Rightarrow> store_op \<Rightarrow> bool" where
  "fetch_op key miss op =
     (case op of
        Match k \<Rightarrow> True
      | Open name \<Rightarrow> name = CACHE_NAME
      | Put name k r \<Rightarrow>
          name = CACHE_NAME \<and> k = key \<and> status r = 200 \<and> (miss \<longrightarrow> rtype r = Basic)
      | _ \<Rightarrow> False)"

subsection \<open>Predicates on store operations\<close>

text \<open>Opens and writes go to \<open>CACHE_NAME\<close>, and nothing is deleted.\<close>

fun writes_current_only :: "store_op \<Rightarrow> bool" where
  "writes_current_only (Open name) = (name = CACHE_NAME)"
| "writes_current_only (Put name key r) = (name = CACHE_NAME)"
| "writes_current_only (Match key) = True"
| "writes_current_only Keys = True"
| "writes_current_only (Delete name) = False"

text \<open>Nothing but the enumeration of the names and deletions of names other than \<open>CACHE_NAME\<close>.\<close>

fun deletes_old_only :: "store_op \<Rightarrow> bool" where
  "deletes_old_only (Delete name) = (name \<noteq> CACHE_NAME)"
| "deletes_old_only Keys = True"
| "deletes_old_only (Open name) = False"
| "deletes_old_only (Put name key r) = False"
| "deletes_old_only (Match key) = False"

text \<open>Nothing but deletions of \<open>CACHE_NAME\<close>.\<close>

fun deletes_current_only :: "store_op \<Rightarrow> bool" where
  "deletes_current_only (Delete name) = (name = CACHE_NAME)"
| "deletes_current_only Keys = False"
| "deletes_current_only (Open name) = False"
| "deletes_current_only (Put name key r) = False"
| "deletes_current_only (Match key) = False"

text \<open>Every response written satisfies \<open>P\<close>.\<close>

fun stores_only :: "(response \<Rightarrow> bool) \<Rightarrow> store_op \<Rightarrow> bool" where
  "stores_only P (Put name key r) = P r"
| "stores_only P (Open name) = True"
| "stores_only P (Match key) = True"
| "stores_only P Keys = True"
| "stores_only P (Delete name) = True"

definition valid_entry :: "response \<Rightarrow> bool" where
  "valid_entry r = (status r = 200 \<and> rtype r = Basic)"

subsection \<open>Concrete inputs\<close>

text \<open>
  A host at \<^verbatim>\<open>https://app.example\<close>, whose URL parser is only needed on absolute
  \<^verbatim>\<open>https\<close> URLs and on paths that start with a slash.
\<close>

definition example_origin :: "string \<Rightarrow> string" where
  "example_origin u =
     (if prefix ''https://'' u
      then ''https://'' @ takeWhile (\<lambda>c. c \<noteq> CHR ''/'') (drop 8 u)
      else u)"

definition example_host :: host where
  "example_host =
     \<lparr>location_origin = ''https://app.example'',
      url_origin = example_origin,
      resolve_url = (\<lambda>path. ''https://app.example'' @ path)\<rparr>"

definition fresh_worker :: worker where
  "fresh_worker = \<lparr>stores = [], oplog = [], skipped_waiting = False, clients_claimed = False\<rparr>"

definition worker_with :: "cache_storage \<Rightarrow> worker" where
  "worker_with cs = fresh_worker\<lparr>stores := cs\<rparr>"

definition page :: "string \<Rightarrow> response" where
  "page b = \<lparr>status = 200, rtype = Basic, body = b\<rparr>"

definition offline :: network where
  "offline = (\<lambda>req. None)"

definition get_request :: "string \<Rightarrow> string \<Rightarrow> request" where
  "get_request u m = \<lparr>req_method = ''GET'', url = u, mode = m\<rparr>"

definition app_url :: string where
  "app_url = ''https://app.example/application.js''"

definition app_request :: request where
  "app_request = get_request app_url ''cors''"

text \<open>Networks: every fetch succeeds; every fetch but that of the stylesheet succeeds.\<close>

definition online :: network where
  "online = (\<lambda>req. Some (page ''v2''))"

definition style_fails :: network where
  "style_fails =
     (\<lambda>req. if url req = ''https://app.example/style.css'' then None else Some (page ''v2''))"

text \<open>
  Networks whose responses are not of status 200 and type basic: a same-origin URL that
  redirects to another origin with CORS headers, and a proxy that answers 203.
\<close>

definition redirected :: network where
  "redirected = (\<lambda>req. Some \<lparr>status = 200, rtype = Cors, body = ''v2''\<rparr>)"

definition non_authoritative :: network where
  "non_authoritative = (\<lambda>req. Some \<lparr>status = 203, rtype = Basic, body = ''v2''\<rparr>)"

text \<open>
  Workers: the current store holds the application script; a store of the generation
  before, created first, holds it and the current store is empty.
\<close>

definition hit_worker :: worker where
  "hit_worker = worker_with [(CACHE_NAME, [(app_url, page ''v1'')])]"

definition old_worker :: worker where
  "old_worker =
     worker_with [(''block-canvas-telegram-v0'', [(app_url, page ''v0'')]), (CACHE_NAME, [])]"

definition small_manifest :: "string list" where
  "small_manifest = [''/'', ''/index.html'', ''/style.css'']"


section \<open>Facts about the model\<close>

lemmas example_defs = example_origin_def example_host_def fresh_worker_def worker_with_def
  page_def offline_def get_request_def

lemmas eval_defs = some_test_def NEVER_CACHE_def CACHEABLE_PATTERNS_def CACHE_NAME_def
  sublist_code(3) suffix_to_prefix

subsection \<open>Lookups and writes in the storage\<close>

lemma cache_match_put_entry:
  "cache_match k (cache_put_entry k' r c) = (if k = k' then Some r else cache_match k c)"
  by (induction c) (auto simp: cache_match_def cache_put_entry_def)

lemma keys_put_entry:
  "set (map fst (cache_put_entry k r c)) = insert k (set (map fst c))"
  by (auto simp: cache_put_entry_def)

lemma map_of_storage_put:
  "map_of (storage_put name k r cs) n =
     (if n = name then map_option (cache_put_entry k r) (map_of cs n) else map_of cs n)"
  by (induction cs) (auto simp: storage_put_def)

lemma names_storage_put: "map fst (storage_put name k r cs) = map fst cs"
  by (induction cs) (auto simp: storage_put_def)

lemma map_of_storage_open:
  "map_of (storage_open name cs) n =
     (if n = name \<and> map_of cs name = None then Some [] else map_of cs n)"
proof (cases "map_of cs name")
  case None
  then have "name \<notin> set (map fst cs)" by (simp add: map_of_eq_None_iff)
  then show ?thesis using None
    by (auto simp: storage_open_def map_add_def split: option.splits)
next
  case (Some c)
  then have "name \<in> set (map fst cs)" by (auto dest: map_of_SomeD intro: rev_image_eqI)
  then show ?thesis using Some by (simp add: storage_open_def)
qed

lemma has_store_iff: "name \<in> set (cache_names w) \<longleftrightarrow> map_of (stores w) name \<noteq> None"
  by (simp add: cache_names_def map_of_eq_None_iff)

lemma names_storage_open:
  "map fst (storage_open name cs) =
     (if name \<in> set (map fst cs) then map fst cs else map fst cs @ [name])"
  by (simp add: storage_open_def)

lemma storage_match_append:
  "storage_match key (pre @ post) =
     (case storage_match key pre of Some r \<Rightarrow> Some r | None \<Rightarrow> storage_match key post)"
  by (induction pre) (auto split: option.splits)

lemma storage_match_None_iff:
  "storage_match key cs = None \<longleftrightarrow> (\<forall>e\<in>set cs. cache_match key (snd e) = None)"
  by (induction cs) (auto split: option.splits)

lemma storage_put_absent: "name \<notin> set (map fst cs) \<Longrightarrow> storage_put name k r cs = cs"
  by (induction cs) (auto simp: storage_put_def)

lemma storage_match_put_present:
  "name \<in> set (map fst cs) \<Longrightarrow> storage_match key cs = None \<Longrightarrow>
     storage_match key (storage_put name key r cs) = Some r"
proof (induction cs)
  case Nil
  then show ?case by simp
next
  case (Cons e cs)
  obtain n c where e: "e = (n, c)" by (cases e)
  from Cons.prems(2) e have none: "cache_match key c = None" "storage_match key cs = None"
    by (auto split: option.splits)
  show ?case
  proof (cases "n = name")
    case True
    then show ?thesis using e by (simp add: storage_put_def cache_match_put_entry)
  next
    case False
    with Cons.prems(1) e have "name \<in> set (map fst cs)" by auto
    with Cons.IH none have "storage_match key (storage_put name key r cs) = Some r" by simp
    with False e none show ?thesis by (simp add: storage_put_def)
  qed
qed

lemma storage_match_open_put:
  assumes "storage_match key cs = None"
  shows "storage_match key (storage_put name key r (storage_open name cs)) = Some r"
proof (cases "name \<in> set (map fst cs)")
  case True
  then show ?thesis using assms by (simp add: storage_open_def storage_match_put_present)
next
  case False
  then have "storage_put name key r (storage_open name cs) = cs @ [(name, [(key, r)])]"
    using storage_put_absent [OF False, of key r]
    by (simp add: storage_open_def storage_put_def cache_put_entry_def)
  then show ?thesis using assms
    by (simp add: storage_match_append cache_match_def)
qed

lemma stores_caches_match [simp]: "stores (snd (caches_match key w)) = stores w"
  by (simp add: caches_match_def)

lemma fst_caches_match [simp]: "fst (caches_match key w) = storage_match key (stores w)"
  by (simp add: caches_match_def)

subsection \<open>Deleting stores\<close>

lemma stores_fold_delete:
  "stores (fold caches_delete ns w) = filter (\<lambda>e. fst e \<notin> set ns) (stores w)"
  by (induction ns arbitrary: w) (auto simp: caches_delete_def storage_delete_def conj_commute)

lemma oplog_fold_delete:
  "oplog (fold caches_delete ns w) = oplog w @ map Delete ns"
  by (induction ns arbitrary: w) (auto simp: caches_delete_def)

lemma stores_on_activate:
  "stores (on_activate w) = filter (\<lambda>e. fst e = CACHE_NAME) (stores w)"
proof -
  have "filter (\<lambda>e. fst e \<notin> set (filter (\<lambda>name. name \<noteq> CACHE_NAME) (map fst (stores w)))) (stores w)
      = filter (\<lambda>e. fst e = CACHE_NAME) (stores w)"
    by (rule filter_cong) force+
  then show ?thesis
    by (simp add: on_activate_def caches_keys_def clients_claim_def stores_fold_delete)
qed

lemma oplog_on_activate:
  "oplog (on_activate w) =
     oplog w @ Keys # map Delete (filter (\<lambda>name. name \<noteq> CACHE_NAME) (cache_names w))"
  by (simp add: on_activate_def caches_keys_def clients_claim_def oplog_fold_delete cache_names_def)

lemma filter_eq_distinct:
  "distinct xs \<Longrightarrow> x \<in> set xs \<Longrightarrow> filter (\<lambda>n. n = x) xs = [x]"
  by (induction xs) (auto simp: filter_empty_conv)

lemma names_on_activate:
  "cache_names (on_activate w) = filter (\<lambda>n. n = CACHE_NAME) (cache_names w)"
  by (simp add: cache_names_def stores_on_activate filter_map comp_def)

subsection \<open>Writing a list of entries\<close>

lemma put_all_Nil [simp]: "put_all name [] w = w"
  by (simp add: put_all_def)

lemma put_all_Cons [simp]:
  "put_all name (e # es) w = put_all name es (cache_put name (fst e) (snd e) w)"
  by (simp add: put_all_def)

lemma oplog_put_all: "oplog (put_all name es w) = oplog w @ map (put_op name) es"
  by (induction es arbitrary: w) (auto simp: cache_put_def put_op_def)

lemma flags_put_all:
  "skipped_waiting (put_all name es w) = skipped_waiting w"
  "clients_claimed (put_all name es w) = clients_claimed w"
  by (induction es arbitrary: w) (auto simp: cache_put_def)

lemma names_put_all: "cache_names (put_all name es w) = cache_names w"
  by (induction es arbitrary: w) (auto simp: cache_put_def cache_names_def names_storage_put)

lemma store_lookup_cache_put:
  "store_lookup n k (cache_put name k' r w) =
     (if n = name \<and> k = k' \<and> name \<in> set (cache_names w) then Some r else store_lookup n k w)"
  by (cases "map_of (stores w) name")
    (auto simp: store_lookup_def cache_put_def map_of_storage_put cache_match_put_entry
      has_store_iff split: option.splits)

lemma store_lookup_caches_open:
  "store_lookup n k (caches_open name w) = store_lookup n k w"
  by (auto simp: store_lookup_def caches_open_def map_of_storage_open cache_match_def
      split: option.splits)

lemma store_keys_cache_put:
  "set (store_keys name (cache_put name k r w)) =
     (if name \<in> set (cache_names w) then insert k (set (store_keys name w)) else {})"
  by (cases "map_of (stores w) name")
    (auto simp: store_keys_def cache_put_def map_of_storage_put has_store_iff
      cache_put_entry_def split: option.splits)

lemma store_keys_put_all:
  "name \<in> set (cache_names w) \<Longrightarrow>
     set (store_keys name (put_all name es w)) = set (store_keys name w) \<union> fst ` set es"
proof (induction es arbitrary: w)
  case Nil
  then show ?case by simp
next
  case (Cons e es)
  have "name \<in> set (cache_names (cache_put name (fst e) (snd e) w))"
    using Cons.prems by (simp add: cache_put_def cache_names_def names_storage_put)
  from Cons.IH [OF this] Cons.prems show ?case
    by (simp add: store_keys_cache_put)
qed

lemma store_lookup_put_all:
  "name \<in> set (cache_names w) \<Longrightarrow>
     store_lookup name k (put_all name es w) =
       (case map_of (rev es) k of Some r \<Rightarrow> Some r | None \<Rightarrow> store_lookup name k w)"
proof (induction es arbitrary: w)
  case Nil
  then show ?case by simp
next
  case (Cons e es)
  have "name \<in> set (cache_names (cache_put name (fst e) (snd e) w))"
    using Cons.prems by (simp add: cache_put_def cache_names_def names_storage_put)
  from Cons.IH [OF this] Cons.prems show ?case
    by (cases e) (auto simp: store_lookup_cache_put map_add_def split: option.splits)
qed

subsection \<open>What an install writes\<close>

lemma admit_new_request:
  "admit net (resolve_url h u) =
     (case net (new_request h u) of None \<Rightarrow> None | Some r \<Rightarrow> if addable r then Some r else None)"
  by (simp add: admit_def new_request_def)

lemma add_or_skip_eq:
  "add_or_skip h net name u w = (Resolved, put_all name (admitted_entries h net [u]) w)"
  by (simp add: add_or_skip_def cache_add_def cache_addAll_def admit_new_request put_all_def
      split: option.splits)

lemma promise_all_add_or_skip:
  "promise_all (map (add_or_skip h net name) urls) w =
     (Resolved, put_all name (admitted_entries h net urls) w)"
proof (induction urls arbitrary: w)
  case Nil
  then show ?case by simp
next
  case (Cons u urls)
  have "promise_all (map (add_or_skip h net name) (u # urls)) w =
      (Resolved, put_all name (admitted_entries h net urls)
                   (put_all name (admitted_entries h net [u]) w))"
    by (simp only: list.map promise_all.simps Cons.IH add_or_skip_eq split: prod.splits) simp
  then show ?case
    by (simp split: option.splits)
qed

lemma fetch_all_Some:
  "fetch_all h net urls = Some es \<Longrightarrow> es = admitted_entries h net urls"
  by (induction urls arbitrary: es) (auto simp: admit_new_request split: option.splits if_splits)

lemma admitted_entries_addable:
  "e \<in> set (admitted_entries h net urls) \<Longrightarrow> addable (snd e)"
  by (induction urls) (auto simp: admit_def split: option.splits if_splits)

lemma precached_addable: "e \<in> set (precached h nb ne urls) \<Longrightarrow> addable (snd e)"
  by (auto simp: precached_def admitted_entries_addable dest: fetch_all_Some split: option.splits)

lemma precache_eq:
  "precache h nb ne urls w =
     (Resolved, skipWaiting (put_all CACHE_NAME (precached h nb ne urls) (caches_open CACHE_NAME w)))"
  by (simp add: precache_def cache_addAll_def promise_all_add_or_skip precached_def put_all_def
      split: option.splits)

lemma map_of_rev_admitted:
  "map_of (rev (admitted_entries h net urls)) k =
     (if k \<in> resolve_url h ` set urls then admit net k else None)"
  by (induction urls) (auto simp: map_add_def split: option.splits if_splits)

lemma current_after_open: "name \<in> set (cache_names (caches_open name w))"
  by (simp add: caches_open_def cache_names_def names_storage_open)

lemma names_caches_open:
  "cache_names (caches_open name w) =
     (if name \<in> set (cache_names w) then cache_names w else cache_names w @ [name])"
  by (simp add: caches_open_def cache_names_def names_storage_open)

lemma store_keys_caches_open: "store_keys n (caches_open name w) = store_keys n w"
  by (auto simp: store_keys_def caches_open_def map_of_storage_open split: option.splits)

lemma observe_skipWaiting [simp]:
  "store_lookup n k (skipWaiting w) = store_lookup n k w"
  "store_keys n (skipWaiting w) = store_keys n w"
  "cache_names (skipWaiting w) = cache_names w"
  "oplog (skipWaiting w) = oplog w"
  "stores (skipWaiting w) = stores w"
  "skipped_waiting (skipWaiting w)"
  by (simp_all add: skipWaiting_def store_lookup_def store_keys_def cache_names_def)

lemma names_precache:
  "cache_names (snd (precache h nb ne urls w)) =
     (if CACHE_NAME \<in> set (cache_names w) then cache_names w else cache_names w @ [CACHE_NAME])"
  by (simp add: precache_eq names_put_all names_caches_open)

lemma store_keys_precache:
  "set (store_keys CACHE_NAME (snd (precache h nb ne urls w))) =
     set (store_keys CACHE_NAME w) \<union> fst ` set (precached h nb ne urls)"
  by (simp add: precache_eq store_keys_put_all current_after_open store_keys_caches_open)

lemma oplog_precache:
  "oplog (snd (precache h nb ne urls w)) =
     oplog w @ Open CACHE_NAME # map (put_op CACHE_NAME) (precached h nb ne urls)"
  by (simp add: precache_eq oplog_put_all caches_open_def)

lemma emitted_append: "oplog w' = oplog w @ new \<Longrightarrow> emitted w w' = new"
  by (simp add: emitted_def)

subsection \<open>What a fetch writes\<close>

lemma oplog_settle: "oplog (settle ds w) = oplog w @ concat (map detached_ops ds)"
  unfolding settle_def
proof (induction ds arbitrary: w)
  case Nil
  then show ?case by simp
next
  case (Cons d ds)
  then show ?case by (cases d) (simp_all add: cache_put_def caches_open_def caches_delete_def)
qed

lemma stores_settle_put:
  "stores (settle [OpenThenPut name key r] w) = storage_put name key r (storage_open name (stores w))"
  by (simp add: settle_def cache_put_def caches_open_def)

lemma fetchAndCache_detached:
  assumes "fetchAndCache net req = Some (r, ds)"
  shows "ds = [] \<or> (ds = [OpenThenPut CACHE_NAME (url req) r] \<and> status r = 200 \<and> rtype r = Basic)"
  using assms by (auto simp: fetchAndCache_def split: option.splits if_splits)

lemma updateCacheInBackground_detached:
  "updateCacheInBackground net req = [] \<or>
     (\<exists>r. updateCacheInBackground net req = [OpenThenPut CACHE_NAME (url req) r] \<and> status r = 200)"
  by (auto simp: updateCacheInBackground_def split: option.splits)

lemma on_fetch_emitted:
  assumes "on_fetch h net req w = (out, w', ds)"
  shows "\<exists>new. oplog (settle ds w') = oplog w @ new
           \<and> list_all (fetch_op (url req) (storage_match (url req) (stores w) = None)) new"
proof (cases "req_method req \<noteq> ''GET'' \<or> some_test NEVER_CACHE (url req)
                \<or> url_origin h (url req) \<noteq> location_origin h")
  case True
  with assms have "w' = w" "ds = []" by (auto simp: on_fetch_def split: if_splits)
  then show ?thesis by (simp add: oplog_settle)
next
  case False
  show ?thesis
  proof (cases "storage_match (url req) (stores w)")
    case (Some cached)
    with False assms have w': "oplog w' = oplog w @ [Match (url req)]"
      and ds: "ds = updateCacheInBackground net req"
      by (auto simp: on_fetch_def caches_match_def)
    from updateCacheInBackground_detached [of net req] ds Some w' show ?thesis
      by (auto simp: oplog_settle fetch_op_def)
  next
    case None
    show ?thesis
    proof (cases "fetchAndCache net req")
      case (Some rd)
      obtain r ds' where rd: "rd = (r, ds')" by (cases rd)
      with False None Some assms have w': "oplog w' = oplog w @ [Match (url req)]"
        and ds: "ds = ds'"
        by (auto simp: on_fetch_def caches_match_def)
      from fetchAndCache_detached [of net req r ds'] Some rd ds w' None show ?thesis
        by (auto simp: oplog_settle fetch_op_def)
    next
      case none: None
      with False None assms have "ds = []"
        and "oplog w' = oplog w @ [Match (url req)] \<or>
             oplog w' = oplog w @ [Match (url req), Match (resolve_url h ''/index.html'')]"
        by (auto simp: on_fetch_def caches_match_def split: if_splits)
      then show ?thesis by (auto simp: oplog_settle fetch_op_def)
    qed
  qed
qed

lemma on_fetch_emitted_all:
  assumes "on_fetch h net req w = (out, w', ds)"
    and "\<And>op. fetch_op (url req) (storage_match (url req) (stores w) = None) op \<Longrightarrow> P op"
  shows "list_all P (emitted w (settle ds w'))"
proof -
  from on_fetch_emitted [OF assms(1)] obtain new
    where new: "oplog (settle ds w') = oplog w @ new"
      "list_all (fetch_op (url req) (storage_match (url req) (stores w) = None)) new"
    by blast
  from new(2) assms(2) have "list_all P new" by (auto simp: list_all_iff)
  with emitted_append [OF new(1)] show ?thesis by simp
qed

text \<open>
  An intercepted request is always handed to \<^verbatim>\<open>respondWith\<close>, and the promise settles
  with \<^verbatim>\<open>undefined\<close> in exactly one case.
\<close>

lemma intercepted_answer:
  assumes "req_method req = ''GET''"
    and "\<not> some_test NEVER_CACHE (url req)"
    and "url_origin h (url req) = location_origin h"
  shows "\<exists>answer w' ds. on_fetch h net req w = (RespondWith answer, w', ds)
           \<and> (answer = None \<longleftrightarrow>
                 storage_match (url req) (stores w) = None \<and> net req = None
                 \<and> mode req = ''navigate''
                 \<and> storage_match (resolve_url h ''/index.html'') (stores w) = None)"
  using assms
  by (auto simp: on_fetch_def caches_match_def fetchAndCache_def Let_def
      split: option.splits)

section \<open>The claims\<close>

subsection \<open>C1: what is written\<close>

text \<open>
  Claim C1, as amended. Store-on-miss writes only responses with status 200 and type
  basic. Every write the fetch handler causes, background refresh included, is of a
  response with status 200. Precache writes only responses the bulk insert admits: an ok status
  (200 to 299) other than 206.
\<close>

theorem writes_by_path:
  "(case on_fetch h net req w of (out, w', ds) \<Rightarrow>
      list_all (stores_only (\<lambda>r. status r = 200)) (emitted w (settle ds w'))
      \<and> (storage_match (url req) (stores w) = None \<longrightarrow>
           list_all (stores_only valid_entry) (emitted w (settle ds w'))))
   \<and> list_all (stores_only addable) (emitted w (snd (precache h nb ne urls w)))"
proof (intro conjI)
  obtain out w' ds where f: "on_fetch h net req w = (out, w', ds)" by (cases "on_fetch h net req w")
  have a: "list_all (stores_only (\<lambda>r. status r = 200)) (emitted w (settle ds w'))"
    by (rule on_fetch_emitted_all [OF f]) (auto simp: fetch_op_def split: store_op.splits)
  have b: "list_all (stores_only valid_entry) (emitted w (settle ds w'))"
    if "storage_match (url req) (stores w) = None"
  proof (rule on_fetch_emitted_all [OF f])
    fix op
    assume "fetch_op (url req) (storage_match (url req) (stores w) = None) op"
    with that show "stores_only valid_entry op"
      by (auto simp: fetch_op_def valid_entry_def split: store_op.splits)
  qed
  from a b f show "case on_fetch h net req w of (out, w', ds) \<Rightarrow>
      list_all (stores_only (\<lambda>r. status r = 200)) (emitted w (settle ds w'))
      \<and> (storage_match (url req) (stores w) = None \<longrightarrow>
           list_all (stores_only valid_entry) (emitted w (settle ds w')))"
    by simp
  show "list_all (stores_only addable) (emitted w (snd (precache h nb ne urls w)))"
    by (simp add: emitted_append [OF oplog_precache] list_all_iff put_op_def precached_addable)
qed

text \<open>
  An instance: a miss of the application script on a fresh worker, and an install of three
  URLs of which one cannot be fetched.
\<close>

theorem writes_by_path_witness:
  "storage_match (url app_request) (stores fresh_worker) = None
   \<and> list_all (stores_only valid_entry)
       (emitted fresh_worker
          (settle (snd (snd (on_fetch example_host online app_request fresh_worker)))
                  (fst (snd (on_fetch example_host online app_request fresh_worker)))))
   \<and> list_all (stores_only addable)
       (emitted fresh_worker (snd (precache example_host style_fails style_fails small_manifest fresh_worker)))"
proof -
  have miss: "storage_match (url app_request) (stores fresh_worker) = None"
    by code_simp
  from writes_by_path [where h = example_host and net = online and req = app_request
      and w = fresh_worker and nb = style_fails and ne = style_fails and urls = small_manifest]
  show ?thesis
    by (simp add: case_prod_beta miss)
qed

text \<open>
  Claim C1 as stated fails on two paths. After a hit, the background refresh stores a
  response of status 200 and type cors. During install, the bulk insert stores responses
  of status 203.
\<close>

theorem writes_not_all_valid:
  "\<not> list_all (stores_only valid_entry)
       (emitted hit_worker
          (settle (snd (snd (on_fetch example_host redirected app_request hit_worker)))
                  (fst (snd (on_fetch example_host redirected app_request hit_worker)))))
   \<and> \<not> list_all (stores_only valid_entry)
       (emitted fresh_worker (snd (on_install example_host non_authoritative non_authoritative fresh_worker)))"
  by code_simp

subsection \<open>C2: answering intercepted requests\<close>

text \<open>
  Claim C2 at a failing input: a navigation to \<^verbatim>\<open>https://app.example/play\<close> while the
  network is down and no store holds \<^verbatim>\<open>/index.html\<close>. The handler looks the request up,
  fetches, looks \<^verbatim>\<open>/index.html\<close> up and hands \<^verbatim>\<open>respondWith\<close> a promise settled with
  \<^verbatim>\<open>undefined\<close>: the request gets no response.
\<close>

theorem navigation_offline_unanswered:
  "on_fetch example_host offline (get_request ''https://app.example/play'' ''navigate'') fresh_worker =
     (RespondWith None,
      fresh_worker\<lparr>oplog := [Match ''https://app.example/play'',
                              Match ''https://app.example/index.html'']\<rparr>,
      [])"
  by (simp add: on_fetch_def caches_match_def fetchAndCache_def example_defs eval_defs)

subsection \<open>C3: a miss\<close>

text \<open>
  Claim C3, as amended. On a miss of an intercepted request whose fetch succeeds, the
  response is returned whatever its cacheability and the stores are, at that moment, as
  they were. If the response has status 200 and type basic and the URL matches a
  cacheable pattern, one detached write of the response into the current store is
  pending; once it has settled, a match for the request returns the served response, and
  the current store holds it.
\<close>

theorem miss_serves_then_stores:
  assumes "req_method req = ''GET''"
    and "\<not> some_test NEVER_CACHE (url req)"
    and "url_origin h (url req) = location_origin h"
    and "storage_match (url req) (stores w) = None"
    and "net req = Some r"
  shows "case on_fetch h net req w of (out, w', ds) \<Rightarrow>
           out = RespondWith (Some r) \<and> stores w' = stores w
           \<and> (status r = 200 \<and> rtype r = Basic \<and> some_test CACHEABLE_PATTERNS (url req) \<longrightarrow>
                ds = [OpenThenPut CACHE_NAME (url req) r]
                \<and> fst (caches_match (url req) (settle ds w')) = Some r
                \<and> store_lookup CACHE_NAME (url req) (settle ds w') = Some r)"
proof -
  let ?w1 = "w\<lparr>oplog := oplog w @ [Match (url req)]\<rparr>"
  let ?put = "[OpenThenPut CACHE_NAME (url req) r]"
  have "fst (caches_match (url req) (settle ?put ?w1)) = Some r"
    using assms(4) by (simp add: caches_match_def stores_settle_put storage_match_open_put)
  moreover have "store_lookup CACHE_NAME (url req) (settle ?put ?w1) = Some r"
    by (simp add: settle_def store_lookup_cache_put current_after_open)
  ultimately show ?thesis
    using assms
    by (auto simp: on_fetch_def caches_match_def fetchAndCache_def)
qed

text \<open>An instance: a miss of the application script on a fresh worker.\<close>

theorem miss_serves_then_stores_witness:
  "fst (on_fetch example_host online app_request fresh_worker) = RespondWith (Some (page ''v2''))
   \<and> store_lookup CACHE_NAME (url app_request)
        (settle (snd (snd (on_fetch example_host online app_request fresh_worker)))
                (fst (snd (on_fetch example_host online app_request fresh_worker))))
       = Some (page ''v2'')"
proof -
  have get: "req_method app_request = ''GET''"
    and allowed: "\<not> some_test NEVER_CACHE (url app_request)"
    and same_origin: "url_origin example_host (url app_request) = location_origin example_host"
    and miss: "storage_match (url app_request) (stores fresh_worker) = None"
    and live: "online app_request = Some (page ''v2'')"
    and cacheable: "status (page ''v2'') = 200 \<and> rtype (page ''v2'') = Basic
                      \<and> some_test CACHEABLE_PATTERNS (url app_request)"
    by code_simp+
  from miss_serves_then_stores [where net = online and req = app_request and h = example_host
      and w = fresh_worker and r = "page ''v2''", OF get allowed same_origin miss live] cacheable
  show ?thesis
    unfolding case_prod_beta by blast
qed

text \<open>
  Claim C3 as stated fails: when the handler's response is settled for a cacheable
  response of status 200 and type basic, no store holds the request yet.
\<close>

theorem miss_returns_before_storing:
  "fst (on_fetch example_host online app_request fresh_worker) = RespondWith (Some (page ''v2''))
   \<and> status (page ''v2'') = 200 \<and> rtype (page ''v2'') = Basic
   \<and> some_test CACHEABLE_PATTERNS (url app_request)
   \<and> storage_match (url app_request)
        (stores (fst (snd (on_fetch example_host online app_request fresh_worker)))) = None"
  by code_simp

subsection \<open>C4: the lookup\<close>

text \<open>
  Claim C4, as amended. The interceptor answers an intercepted request with what its
  lookup finds. The lookup goes through every existing store in creation order and returns
  the entry of the first store that holds the key; it returns nothing when no store holds
  the key; and when the current store is the only store, it is the exact-key lookup in the
  current store.
\<close>

theorem caches_match_first_store:
  "(req_method req = ''GET'' \<and> \<not> some_test NEVER_CACHE (url req)
      \<and> url_origin h (url req) = location_origin h
      \<and> fst (caches_match (url req) w) = Some cached \<longrightarrow>
        fst (on_fetch h net req w) = RespondWith (Some cached))
   \<and> (stores w = pre @ (name, c) # post \<and> (\<forall>e\<in>set pre. cache_match key (snd e) = None)
      \<and> cache_match key c = Some r \<longrightarrow> fst (caches_match key w) = Some r)
   \<and> ((\<forall>e\<in>set (stores w). cache_match key (snd e) = None) \<longrightarrow> fst (caches_match key w) = None)
   \<and> (cache_names w = [CACHE_NAME] \<longrightarrow> fst (caches_match key w) = store_lookup CACHE_NAME key w)"
proof (intro conjI impI)
  assume "req_method req = ''GET'' \<and> \<not> some_test NEVER_CACHE (url req)
      \<and> url_origin h (url req) = location_origin h
      \<and> fst (caches_match (url req) w) = Some cached"
  then show "fst (on_fetch h net req w) = RespondWith (Some cached)"
    by (simp add: on_fetch_def caches_match_def)
next
  assume a: "stores w = pre @ (name, c) # post \<and> (\<forall>e\<in>set pre. cache_match key (snd e) = None)
      \<and> cache_match key c = Some r"
  then have "storage_match key pre = None" by (simp add: storage_match_None_iff)
  with a show "fst (caches_match key w) = Some r"
    by (simp add: storage_match_append)
next
  assume "\<forall>e\<in>set (stores w). cache_match key (snd e) = None"
  then show "fst (caches_match key w) = None" by (simp add: storage_match_None_iff)
next
  assume "cache_names w = [CACHE_NAME]"
  then obtain c where "stores w = [(CACHE_NAME, c)]"
    by (auto simp: cache_names_def map_eq_Cons_conv)
  then show "fst (caches_match key w) = store_lookup CACHE_NAME key w"
    by (simp add: store_lookup_def split: option.splits)
qed

text \<open>
  Instances: an entry found in the first of two stores and served, a key no store holds,
  and a worker whose only store is the current one.
\<close>

theorem caches_match_first_store_witness:
  "fst (caches_match app_url old_worker) = Some (page ''v0'')
   \<and> fst (on_fetch example_host offline app_request old_worker) = RespondWith (Some (page ''v0''))
   \<and> fst (caches_match ''https://app.example/style.css'' old_worker) = None
   \<and> fst (caches_match app_url hit_worker) = store_lookup CACHE_NAME app_url hit_worker"
proof -
  have first: "stores old_worker =
        [] @ (''block-canvas-telegram-v0'', [(app_url, page ''v0'')]) # [(CACHE_NAME, [])]
      \<and> (\<forall>e\<in>set []. cache_match app_url (snd e) = None)
      \<and> cache_match app_url [(app_url, page ''v0'')] = Some (page ''v0'')"
    by (simp add: old_worker_def worker_with_def fresh_worker_def cache_match_def)
  have nowhere: "\<forall>e\<in>set (stores old_worker).
      cache_match ''https://app.example/style.css'' (snd e) = None"
    by (simp add: old_worker_def worker_with_def fresh_worker_def cache_match_def app_url_def)
  have alone: "cache_names hit_worker = [CACHE_NAME]"
    by (simp add: hit_worker_def worker_with_def fresh_worker_def cache_names_def)
  from caches_match_first_store [where w = old_worker and pre = "[]"
      and name = "''block-canvas-telegram-v0''" and c = "[(app_url, page ''v0'')]"
      and post = "[(CACHE_NAME, [])]" and key = app_url and r = "page ''v0''"] first
  have a: "fst (caches_match app_url old_worker) = Some (page ''v0'')" by blast
  have intercepted: "req_method app_request = ''GET'' \<and> \<not> some_test NEVER_CACHE (url app_request)
      \<and> url_origin example_host (url app_request) = location_origin example_host"
    and key: "url app_request = app_url"
    by code_simp+
  from caches_match_first_store [where w = old_worker and req = app_request
      and h = example_host and net = offline and cached = "page ''v0''"] intercepted a key
  have served: "fst (on_fetch example_host offline app_request old_worker)
      = RespondWith (Some (page ''v0''))"
    by simp
  from caches_match_first_store [where w = old_worker
      and key = "''https://app.example/style.css''"] nowhere
  have b: "fst (caches_match ''https://app.example/style.css'' old_worker) = None" by blast
  from caches_match_first_store [where w = hit_worker and key = app_url] alone
  have c: "fst (caches_match app_url hit_worker) = store_lookup CACHE_NAME app_url hit_worker"
    by blast
  from a served b c show ?thesis by simp
qed

text \<open>
  Claim C4 as stated fails: with a store of the generation before still present, the
  interceptor answers with its entry although the current store does not hold the key.
\<close>

theorem match_returns_older_generation:
  "fst (on_fetch example_host offline app_request old_worker) = RespondWith (Some (page ''v0''))
   \<and> store_lookup CACHE_NAME (url app_request) old_worker = None"
  by code_simp

subsection \<open>C5: install with failures\<close>

text \<open>
  Claim C5. For every manifest, install completes and asks to skip waiting. When the bulk
  insert is rejected, every URL of the manifest is tried alone: the current store then
  holds, under the URL, the response of its own fetch if that succeeded and was admitted,
  and what it held before otherwise.
\<close>

theorem install_tolerates_failures:
  "fst (precache h nb ne urls w) = Resolved
   \<and> skipped_waiting (snd (precache h nb ne urls w))
   \<and> (fst (cache_addAll h nb CACHE_NAME urls (caches_open CACHE_NAME w)) = Rejected \<longrightarrow>
        (\<forall>u\<in>set urls.
           store_lookup CACHE_NAME (resolve_url h u) (snd (precache h nb ne urls w)) =
             (case ne (new_request h u) of
                None \<Rightarrow> store_lookup CACHE_NAME (resolve_url h u) w
              | Some r \<Rightarrow>
                  if addable r then Some r else store_lookup CACHE_NAME (resolve_url h u) w)))"
proof (intro conjI impI ballI)
  show "fst (precache h nb ne urls w) = Resolved" by (simp add: precache_eq)
  show "skipped_waiting (snd (precache h nb ne urls w))" by (simp add: precache_eq)
next
  fix u
  assume rej: "fst (cache_addAll h nb CACHE_NAME urls (caches_open CACHE_NAME w)) = Rejected"
    and u: "u \<in> set urls"
  from rej have "fetch_all h nb urls = None"
    by (simp add: cache_addAll_def split: option.splits)
  then have "precached h nb ne urls = admitted_entries h ne urls"
    by (simp add: precached_def)
  then have "store_lookup CACHE_NAME (resolve_url h u) (snd (precache h nb ne urls w)) =
      (case admit ne (resolve_url h u) of
         Some r \<Rightarrow> Some r
       | None \<Rightarrow> store_lookup CACHE_NAME (resolve_url h u) w)"
    using u
    by (simp add: precache_eq store_lookup_put_all current_after_open map_of_rev_admitted
        store_lookup_caches_open split: option.splits)
  then show "store_lookup CACHE_NAME (resolve_url h u) (snd (precache h nb ne urls w)) =
             (case ne (new_request h u) of
                None \<Rightarrow> store_lookup CACHE_NAME (resolve_url h u) w
              | Some r \<Rightarrow>
                  if addable r then Some r else store_lookup CACHE_NAME (resolve_url h u) w)"
    by (simp add: admit_new_request split: option.splits)
qed

text \<open>
  The scenario of the claim: the manifest \<^verbatim>\<open>["/", "/index.html", "/style.css"]\<close> with
  the fetch of the stylesheet failing.
\<close>

theorem install_tolerates_failures_witness:
  "fst (precache example_host style_fails style_fails small_manifest fresh_worker) = Resolved
   \<and> skipped_waiting (snd (precache example_host style_fails style_fails small_manifest fresh_worker))
   \<and> store_lookup CACHE_NAME ''https://app.example/''
        (snd (precache example_host style_fails style_fails small_manifest fresh_worker))
       = Some (page ''v2'')
   \<and> store_lookup CACHE_NAME ''https://app.example/index.html''
        (snd (precache example_host style_fails style_fails small_manifest fresh_worker))
       = Some (page ''v2'')
   \<and> store_lookup CACHE_NAME ''https://app.example/style.css''
        (snd (precache example_host style_fails style_fails small_manifest fresh_worker))
       = None"
proof -
  have bulk_fails: "fst (cache_addAll example_host style_fails CACHE_NAME small_manifest
                      (caches_open CACHE_NAME fresh_worker)) = Rejected"
    by code_simp
  from install_tolerates_failures [where h = example_host and nb = style_fails
      and ne = style_fails and urls = small_manifest and w = fresh_worker] bulk_fails
  show ?thesis
    by (simp add: small_manifest_def example_host_def style_fails_def new_request_def
        addable_def page_def store_lookup_def fresh_worker_def)
qed

text \<open>
  In the same scenario the keys of the current store survive activation, which claims the
  clients; and with the manifest of the source, only the stylesheet is missing.
\<close>

lemma install_scenario:
  "store_keys CACHE_NAME
     (on_activate (snd (precache example_host style_fails style_fails small_manifest fresh_worker)))
     = [''https://app.example/'', ''https://app.example/index.html'']
   \<and> clients_claimed
     (on_activate (snd (precache example_host style_fails style_fails small_manifest fresh_worker)))
   \<and> store_keys CACHE_NAME (snd (on_install example_host style_fails style_fails fresh_worker))
     = [''https://app.example/'', ''https://app.example/index.html'',
        ''https://app.example/application.js'', ''https://app.example/src/polyfills.bundle.js'',
        ''https://app.example/src/system.bundle.js'', ''https://app.example/src/import-map.json'',
        ''https://app.example/index.js'']"
  by code_simp

subsection \<open>C6: the stores after activation\<close>

text \<open>
  Claim C6. After install and then activate, the set of store names is exactly
  \<open>{CACHE_NAME}\<close>; with distinct store names to begin with, the list of names is
  \<open>[CACHE_NAME]\<close>.
\<close>

theorem activate_leaves_current_store_only:
  "set (cache_names (on_activate (snd (on_install h nb ne w)))) = {CACHE_NAME}
   \<and> (distinct (cache_names w) \<longrightarrow>
        cache_names (on_activate (snd (on_install h nb ne w))) = [CACHE_NAME])"
proof (intro conjI impI)
  let ?w = "snd (on_install h nb ne w)"
  have mem: "CACHE_NAME \<in> set (cache_names ?w)"
    by (simp add: on_install_def names_precache)
  then show "set (cache_names (on_activate ?w)) = {CACHE_NAME}"
    by (auto simp: names_on_activate)
  assume "distinct (cache_names w)"
  then have "distinct (cache_names ?w)"
    by (simp add: on_install_def names_precache)
  with mem show "cache_names (on_activate ?w) = [CACHE_NAME]"
    by (simp add: names_on_activate filter_eq_distinct)
qed

text \<open>An instance: the store of the generation before exists when install starts.\<close>

theorem activate_leaves_current_store_only_witness:
  "distinct (cache_names old_worker)
   \<and> cache_names (on_activate (snd (on_install example_host online online old_worker))) = [CACHE_NAME]"
proof -
  have "distinct (cache_names old_worker)"
    by code_simp
  with activate_leaves_current_store_only [where h = example_host and nb = online
      and ne = online and w = old_worker]
  show ?thesis by simp
qed

subsection \<open>C7: requests that are not intercepted\<close>

text \<open>
  Claim C7. A request whose method is not GET, or whose URL matches a never-cache
  pattern, or whose origin is not the worker's, passes through: the handler does not
  respond, the worker is unchanged, no store operation is logged and nothing is pending.
\<close>

theorem fetch_pass_through:
  assumes "req_method req \<noteq> ''GET'' \<or> some_test NEVER_CACHE (url req)
             \<or> url_origin h (url req) \<noteq> location_origin h"
  shows "on_fetch h net req w = (PassThrough, w, []) \<and> emitted w w = []"
  using assms by (auto simp: on_fetch_def emitted_def)

text \<open>Instances: a POST, a URL that ends in \<^verbatim>\<open>.php\<close>, a script of another origin.\<close>

theorem fetch_pass_through_witness:
  "on_fetch example_host offline
      \<lparr>req_method = ''POST'', url = ''https://app.example/score'', mode = ''cors''\<rparr> fresh_worker
     = (PassThrough, fresh_worker, [])
   \<and> on_fetch example_host offline (get_request ''https://app.example/api.php'' ''cors'')
        fresh_worker
     = (PassThrough, fresh_worker, [])
   \<and> on_fetch example_host offline (get_request ''https://cdn.example/lib.js'' ''no-cors'')
        fresh_worker
     = (PassThrough, fresh_worker, [])"
proof -
  let ?post = "\<lparr>req_method = ''POST'', url = ''https://app.example/score'', mode = ''cors''\<rparr>"
  let ?php = "get_request ''https://app.example/api.php'' ''cors''"
  let ?cdn = "get_request ''https://cdn.example/lib.js'' ''no-cors''"
  have not_get: "req_method ?post \<noteq> ''GET''"
    and excluded: "some_test NEVER_CACHE (url ?php)"
    and cross_origin: "url_origin example_host (url ?cdn) \<noteq> location_origin example_host"
    by code_simp+
  from fetch_pass_through [where req = ?post and h = example_host and net = offline
      and w = fresh_worker] not_get
    fetch_pass_through [where req = ?php and h = example_host and net = offline
      and w = fresh_worker] excluded
    fetch_pass_through [where req = ?cdn and h = example_host and net = offline
      and w = fresh_worker] cross_origin
  show ?thesis by blast
qed

subsection \<open>C8: install twice\<close>

text \<open>
  Claim C8. For every manifest and every pair of network outcomes, installing twice leaves
  the current store with the same set of keys as installing once.
\<close>

theorem install_twice_same_keys:
  "set (store_keys CACHE_NAME (snd (precache h nb ne urls (snd (precache h nb ne urls w))))) =
   set (store_keys CACHE_NAME (snd (precache h nb ne urls w)))"
  by (auto simp: store_keys_precache)

text \<open>An instance: the bulk insert fails both times and the second round succeeds.\<close>

theorem install_twice_same_keys_witness:
  "set (store_keys CACHE_NAME
         (snd (precache example_host style_fails online small_manifest
            (snd (precache example_host style_fails online small_manifest fresh_worker)))))
   = set (store_keys CACHE_NAME (snd (precache example_host style_fails online small_manifest fresh_worker)))"
  using install_twice_same_keys [where h = example_host and nb = style_fails and ne = online
      and urls = small_manifest and w = fresh_worker]
  by simp

subsection \<open>C9: a failed background refresh\<close>

text \<open>
  Claim C9. On a hit of an intercepted request whose refresh fetch fails, the caller gets
  the cached entry, the refresh leaves no write pending, and after it has settled the
  stores are unchanged.
\<close>

theorem refresh_failure_is_silent:
  assumes "req_method req = ''GET''"
    and "\<not> some_test NEVER_CACHE (url req)"
    and "url_origin h (url req) = location_origin h"
    and "storage_match (url req) (stores w) = Some cached"
    and "net req = None"
  shows "case on_fetch h net req w of (out, w', ds) \<Rightarrow>
           out = RespondWith (Some cached) \<and> ds = updateCacheInBackground net req \<and> ds = []
           \<and> stores (settle ds w') = stores w
           \<and> store_lookup CACHE_NAME (url req) (settle ds w') = store_lookup CACHE_NAME (url req) w"
  using assms
  by (simp add: on_fetch_def caches_match_def updateCacheInBackground_def settle_def store_lookup_def)

text \<open>An instance: a hit of the application script while the network is down.\<close>

theorem refresh_failure_is_silent_witness:
  "fst (on_fetch example_host offline app_request hit_worker) = RespondWith (Some (page ''v1''))
   \<and> stores (settle (snd (snd (on_fetch example_host offline app_request hit_worker)))
                     (fst (snd (on_fetch example_host offline app_request hit_worker))))
       = stores hit_worker"
proof -
  have get: "req_method app_request = ''GET''"
    and allowed: "\<not> some_test NEVER_CACHE (url app_request)"
    and same_origin: "url_origin example_host (url app_request) = location_origin example_host"
    and hit: "storage_match (url app_request) (stores hit_worker) = Some (page ''v1'')"
    and down: "offline app_request = None"
    by code_simp+
  from refresh_failure_is_silent [where net = offline and req = app_request and h = example_host
      and w = hit_worker and cached = "page ''v1''", OF get allowed same_origin hit down]
  show ?thesis
    unfolding case_prod_beta by blast
qed

subsection \<open>C10: the names of the stores touched\<close>

text \<open>
  Claim C10. Install and fetch, with their detached writes settled, open and write only
  \<open>CACHE_NAME\<close> and delete nothing; activate only enumerates and deletes names other
  than \<open>CACHE_NAME\<close>; a message only deletes \<open>CACHE_NAME\<close>.
\<close>

theorem store_operations_target_current_name:
  "list_all writes_current_only (emitted w (snd (on_install h nb ne w)))
   \<and> (case on_fetch h net req w of (out, w', ds) \<Rightarrow>
        list_all writes_current_only (emitted w (settle ds w')))
   \<and> list_all deletes_old_only (emitted w (on_activate w))
   \<and> (case on_message data w of (w', ds) \<Rightarrow>
        list_all deletes_current_only (emitted w (settle ds w')))"
proof (intro conjI)
  show "list_all writes_current_only (emitted w (snd (on_install h nb ne w)))"
    by (simp add: on_install_def emitted_append [OF oplog_precache] list_all_iff put_op_def)
  show "case on_fetch h net req w of (out, w', ds) \<Rightarrow>
        list_all writes_current_only (emitted w (settle ds w'))"
  proof -
    obtain out w' ds where f: "on_fetch h net req w = (out, w', ds)" by (cases "on_fetch h net req w")
    have "list_all writes_current_only (emitted w (settle ds w'))"
      by (rule on_fetch_emitted_all [OF f]) (auto simp: fetch_op_def split: store_op.splits)
    with f show ?thesis by simp
  qed
  show "list_all deletes_old_only (emitted w (on_activate w))"
    by (simp add: emitted_append [OF oplog_on_activate] list_all_iff)
  show "case on_message data w of (w', ds) \<Rightarrow>
        list_all deletes_current_only (emitted w (settle ds w'))"
    by (simp add: on_message_def Let_def emitted_def oplog_settle skipWaiting_def)
qed

text \<open>Instances on a fresh worker, on a hit and with a store of the generation before.\<close>

theorem store_operations_target_current_name_witness:
  "list_all writes_current_only (emitted fresh_worker (snd (on_install example_host online online fresh_worker)))
   \<and> list_all writes_current_only
       (emitted hit_worker
          (settle (snd (snd (on_fetch example_host online app_request hit_worker)))
                  (fst (snd (on_fetch example_host online app_request hit_worker)))))
   \<and> list_all deletes_old_only (emitted old_worker (on_activate old_worker))
   \<and> list_all deletes_current_only
       (emitted hit_worker
          (settle (snd (on_message ''clearCache'' hit_worker)) (fst (on_message ''clearCache'' hit_worker))))"
  using store_operations_target_current_name [where w = fresh_worker and h = example_host
      and nb = online and ne = online]
    store_operations_target_current_name [where w = hit_worker and h = example_host
      and net = online and req = app_request and data = "''clearCache''"]
    store_operations_target_current_name [where w = old_worker]
  by (simp add: case_prod_beta)

text \<open>The operations logged in these instances.\<close>

lemma emitted_examples:
  "emitted fresh_worker (snd (on_install example_host style_fails style_fails fresh_worker)) =
     [Open CACHE_NAME,
      Put CACHE_NAME ''https://app.example/'' (page ''v2''),
      Put CACHE_NAME ''https://app.example/index.html'' (page ''v2''),
      Put CACHE_NAME ''https://app.example/application.js'' (page ''v2''),
      Put CACHE_NAME ''https://app.example/src/polyfills.bundle.js'' (page ''v2''),
      Put CACHE_NAME ''https://app.example/src/system.bundle.js'' (page ''v2''),
      Put CACHE_NAME ''https://app.example/src/import-map.json'' (page ''v2''),
      Put CACHE_NAME ''https://app.example/index.js'' (page ''v2'')]
   \<and> emitted hit_worker
       (settle (snd (snd (on_fetch example_host online app_request hit_worker)))
               (fst (snd (on_fetch example_host online app_request hit_worker)))) =
     [Match app_url, Open CACHE_NAME, Put CACHE_NAME app_url (page ''v2'')]
   \<and> emitted old_worker (on_activate old_worker) = [Keys, Delete ''block-canvas-telegram-v0'']
   \<and> emitted hit_worker
       (settle (snd (on_message ''clearCache'' hit_worker)) (fst (on_message ''clearCache'' hit_worker))) =
     [Delete CACHE_NAME]"
  by code_simp

end
